theory Spec2Isabelle
  imports Main
begin

section \<open>Strings and arrays as the engine uses them\<close>

text \<open>
  Tokens, tags and messages are JavaScript strings, modelled as \<open>string\<close>.
  \<open>startsWith s p\<close> is \<open>s.startsWith(p)\<close>;
  \<open>indexOf s c\<close> is \<open>s.indexOf(c)\<close> for a one-character needle, \<open>-1\<close> when it is absent;
  \<open>substring_from s i\<close> is \<open>s.substring(i)\<close>, which clamps its start into the string.
\<close>

fun startsWith :: "string \<Rightarrow> string \<Rightarrow> bool" where
  "startsWith s [] = True"
| "startsWith [] (p # ps) = False"
| "startsWith (c # cs) (p # ps) = (c = p \<and> startsWith cs ps)"

fun indexOf :: "string \<Rightarrow> char \<Rightarrow> int" where
  "indexOf [] c = - 1"
| "indexOf (x # xs) c =
     (if x = c then 0 else (let i = indexOf xs c in if i < 0 then - 1 else i + 1))"

definition substring_from :: "string \<Rightarrow> int \<Rightarrow> string" where
  "substring_from s i = drop (nat i) s"

text \<open>
  The module's own \<open>dropWhile(s, p)\<close>: an index walks over \<open>s\<close> while the one-character
  string at the index satisfies \<open>p\<close>; the result is \<open>s\<close> itself when the index never moved
  and \<open>s.substring(index)\<close> otherwise.
\<close>

function dropWhile_index :: "string \<Rightarrow> (string \<Rightarrow> bool) \<Rightarrow> nat \<Rightarrow> nat" where
  "dropWhile_index s p index =
     (if index < length s
      then (if p (take 1 (drop index s)) then dropWhile_index s p (index + 1) else index)
      else index)"
  by pat_completeness auto
termination
  by (relation "measure (\<lambda>(s, p, index). length s - index)") auto

declare dropWhile_index.simps [simp del]

definition dropWhile_str :: "string \<Rightarrow> (string \<Rightarrow> bool) \<Rightarrow> string" where
  "dropWhile_str s p =
     (let index = dropWhile_index s p 0 in if index = 0 then s else drop index s)"

text \<open>\<open>args[0]\<close> is a string or \<open>undefined\<close>; a template literal prints the latter as text.\<close>

definition head :: "string list \<Rightarrow> string option" where
  "head xs = (case xs of [] \<Rightarrow> None | x # _ \<Rightarrow> Some x)"

definition interpolate :: "string option \<Rightarrow> string" where
  "interpolate v = (case v of None \<Rightarrow> ''undefined'' | Some s \<Rightarrow> s)"

text \<open>\<open>`${args}`\<close> on an array of strings joins the elements with commas.\<close>

fun join_comma :: "string list \<Rightarrow> string" where
  "join_comma [] = []"
| "join_comma [x] = x"
| "join_comma (x # y # ys) = x @ '','' @ join_comma (y # ys)"

section \<open>Data model\<close>

text \<open>
  The value store is the \<open>Map\<close> created by \<open>process\<close>; the engine writes \<open>true\<close> or a string.
  What the process has written is a list in the order of the calls: \<open>Line Stdout s\<close> is
  \<open>console.log(s)\<close>, \<open>Render d\<close> records that \<open>render(d, Deno.stdout)\<close> of the pretty-printing
  library was called with the help document \<open>d\<close> (the layout of the document belongs to
  that library).
\<close>

datatype val = VBool bool | VString string

type_synonym store = "string \<rightharpoonup> val"

datatype doc = Cli_help | Cmd_usage string

datatype stream = Stdout | Stderr

datatype written = Line stream string | Render doc

datatype error = TypeError

text \<open>
  The state the engine shares by reference: the remaining tokens, the value store, the
  output so far, and the exit codes of \<open>Deno.exit\<close> calls that sit behind an \<open>await\<close> and
  can only run once the synchronous call of \<open>process\<close> has returned.
\<close>

record state =
  args :: "string list"
  vals :: store
  out :: "written list"
  deferred :: "int list"

text \<open>
  A call returns, or ends the process through \<open>Deno.exit(code)\<close>, or throws a
  \<open>TypeError\<close> that nothing catches. The last two carry the output written before.
\<close>

datatype outcome = Returns state | Exits "written list" int | Throws "written list" error

text \<open>
  The callback of a \<open>DoOption\<close> is either the arrow function of \<open>helpFlag\<close> or code of
  the hosting program, named by a value of type \<open>'a\<close>; likewise the action of a
  \<open>ValueCommand\<close> is the one of \<open>helpCmd\<close> or a hosting program's, named in \<open>'b\<close>.
\<close>

datatype 'a opt_action = Help_action | Custom_action 'a

datatype 'a cli_option =
    ValueOption "string list" string
  | FlagOption "string list" string
  | DoOption "string list" string "'a opt_action"

record ShowValue =
  sv_name :: string
  optional :: bool
  sv_help :: string

datatype 'b cmd_action = HelpCmd_action | Custom_cmd_action 'b

datatype ('a, 'b) command =
  ValueCommand (cmd_name: string) (cmd_help: string) (cmd_options: "'a cli_option list")
    (showValue: ShowValue) (cmd_action: "'b cmd_action")

record ('a, 'b) Definition =
  name :: string
  helpText :: string
  options :: "'a cli_option list"
  cmds :: "('a, 'b) command list"

text \<open>
  The hosting program's callbacks. An option callback receives the definition, the token
  array and the store, all by reference, so it is a function on the whole state; a command
  action receives the definition, the positional value (or \<open>undefined\<close>) and the store.
\<close>

type_synonym ('a, 'b) opt_handler = "'a \<Rightarrow> ('a, 'b) Definition \<Rightarrow> state \<Rightarrow> outcome"

type_synonym ('a, 'b) cmd_handler =
  "'b \<Rightarrow> ('a, 'b) Definition \<Rightarrow> string option \<Rightarrow> state \<Rightarrow> outcome"

section \<open>Options\<close>

text \<open>
  \<open>canDo\<close>: \<open>this.tags.some(...)\<close> over \<open>args[0]\<close>. With no token, \<open>args[0]\<close> is \<open>undefined\<close>:
  a \<open>ValueOption\<close> with a tag then calls \<open>startsWith\<close> on it and throws, the other two
  compare a tag with it and answer \<open>false\<close>.
\<close>

fun canDo :: "'a cli_option \<Rightarrow> string list \<Rightarrow> error + bool" where
  "canDo (ValueOption ts h) [] = (if ts = [] then Inr False else Inl TypeError)"
| "canDo (ValueOption ts h) (a # as) = Inr (list_ex (\<lambda>t. startsWith a (t @ ''='')) ts)"
| "canDo (FlagOption ts h) [] = Inr False"
| "canDo (FlagOption ts h) (a # as) = Inr (list_ex (\<lambda>t. t = a) ts)"
| "canDo (DoOption ts h act) [] = Inr False"
| "canDo (DoOption ts h act) (a # as) = Inr (list_ex (\<lambda>t. t = a) ts)"

text \<open>The canonical key: \<open>dropWhile(this.tags[0], (c) => c == "-")\<close>.\<close>

definition canonical_key :: "string list \<Rightarrow> string" where
  "canonical_key ts = dropWhile_str (hd ts) (\<lambda>c. c = ''-'')"

definition reportErrorAndTerminate :: "string \<Rightarrow> ('a, 'b) Definition \<Rightarrow> state \<Rightarrow> outcome" where
  "reportErrorAndTerminate errorMsg cli s =
     Exits (out s @ [Line Stdout (''Error: '' @ errorMsg)]) (- 1)"

text \<open>\<open>show(cli)\<close> hands the top-level help document to \<open>render\<close> and returns its promise.\<close>

definition show_cli :: "state \<Rightarrow> state" where
  "show_cli s = s\<lparr>out := out s @ [Render Cli_help]\<rparr>"

text \<open>
  Calling a callback. The one of \<open>helpFlag\<close> is \<open>async (cli) => { await show(cli); Deno.exit(0); }\<close>:
  the call runs \<open>show(cli)\<close>, stops at the \<open>await\<close> and returns a promise, leaving
  \<open>Deno.exit(0)\<close> for a later turn of the event loop.
\<close>

fun run_opt_action ::
  "('a, 'b) opt_handler \<Rightarrow> 'a opt_action \<Rightarrow> ('a, 'b) Definition \<Rightarrow> state \<Rightarrow> outcome" where
  "run_opt_action h Help_action cli s = Returns ((show_cli s)\<lparr>deferred := deferred s @ [0]\<rparr>)"
| "run_opt_action h (Custom_action a) cli s = h a cli s"

text \<open>
  \<open>doNow\<close>. \<open>ValueOption\<close> reads \<open>args[0]\<close> and \<open>this.tags[0]\<close> and throws when either is
  \<open>undefined\<close>; \<open>FlagOption\<close> splices first (nothing, on an empty array) and then reads
  \<open>this.tags[0]\<close>; \<open>DoOption\<close> splices and calls its callback without awaiting it.
\<close>

fun doNow ::
  "('a, 'b) opt_handler \<Rightarrow> 'a cli_option \<Rightarrow> ('a, 'b) Definition \<Rightarrow> state \<Rightarrow> outcome" where
  "doNow h (ValueOption ts hlp) cli s =
     (case args s of
        [] \<Rightarrow> Throws (out s) TypeError
      | tok # rest \<Rightarrow>
          if ts = [] then Throws (out s) TypeError
          else Returns (s\<lparr>vals := (vals s)(canonical_key ts \<mapsto>
                                 VString (substring_from tok (indexOf tok (CHR ''='') + 1))),
                          args := rest\<rparr>))"
| "doNow h (FlagOption ts hlp) cli s =
     (if ts = [] then Throws (out s) TypeError
      else Returns (s\<lparr>args := drop 1 (args s),
                      vals := (vals s)(canonical_key ts \<mapsto> VBool True)\<rparr>))"
| "doNow h (DoOption ts hlp act) cli s = run_opt_action h act cli (s\<lparr>args := drop 1 (args s)\<rparr>)"

definition helpFlag :: "'a cli_option" where
  "helpFlag = DoOption [''-h'', ''--help''] ''Prints help information'' Help_action"

section \<open>The option-list processor\<close>

text \<open>\<open>options.find((o) => o.canDo(args))\<close>: the first option that answers \<open>true\<close>.\<close>

fun find_canDo :: "'a cli_option list \<Rightarrow> string list \<Rightarrow> error + 'a cli_option option" where
  "find_canDo [] as = Inr None"
| "find_canDo (opt # opts) as =
     (case canDo opt as of
        Inl e \<Rightarrow> Inl e
      | Inr b \<Rightarrow> if b then Inr (Some opt) else find_canDo opts as)"

text \<open>The loop condition \<open>args.length > 0 && args[0].startsWith("-")\<close>.\<close>

definition loop_cond :: "state \<Rightarrow> bool" where
  "loop_cond s = (case args s of [] \<Rightarrow> False | a # _ \<Rightarrow> startsWith a ''-'')"

text \<open>
  One run of the loop body: it leaves the loop through \<open>break\<close>, or it goes on with the
  outcome of reporting an invalid option or of applying the option found.
\<close>

datatype iteration = Break state | Continue outcome

definition loop_body ::
  "('a, 'b) opt_handler \<Rightarrow> ('a, 'b) Definition \<Rightarrow> 'a cli_option list \<Rightarrow> state \<Rightarrow> iteration" where
  "loop_body h cli opts s =
     (if head (args s) = Some ''--'' then Break (s\<lparr>args := drop 1 (args s)\<rparr>)
      else case find_canDo opts (args s) of
             Inl e \<Rightarrow> Continue (Throws (out s) e)
           | Inr None \<Rightarrow>
               Continue (reportErrorAndTerminate (''Invalid option '' @ interpolate (head (args s))) cli s)
           | Inr (Some opt) \<Rightarrow> Continue (doNow h opt cli s))"

text \<open>The loop; \<open>None\<close> is a loop that never ends.\<close>

partial_function (option) processOptions ::
  "('a, 'b) opt_handler \<Rightarrow> ('a, 'b) Definition \<Rightarrow> 'a cli_option list \<Rightarrow> state \<Rightarrow> outcome option" where
  "processOptions h cli opts s =
     (if loop_cond s
      then (case loop_body h cli opts s of
              Break s' \<Rightarrow> Some (Returns s')
            | Continue r \<Rightarrow>
                (case r of
                   Returns s' \<Rightarrow> processOptions h cli opts s'
                 | Exits w c \<Rightarrow> Some (Exits w c)
                 | Throws w e \<Rightarrow> Some (Throws w e)))
      else Some (Returns s))"

text \<open>The states at which the loop condition is evaluated, starting from a given one.\<close>

inductive loop_reaches ::
  "('a, 'b) opt_handler \<Rightarrow> ('a, 'b) Definition \<Rightarrow> 'a cli_option list \<Rightarrow> state \<Rightarrow> state \<Rightarrow> bool"
  for h cli opts where
    here: "loop_reaches h cli opts s s"
  | later: "loop_cond s \<Longrightarrow> loop_body h cli opts s = Continue (Returns t) \<Longrightarrow>
            loop_reaches h cli opts t u \<Longrightarrow> loop_reaches h cli opts s u"

section \<open>Commands and the dispatcher\<close>

definition cmd_canDo :: "('a, 'b) command \<Rightarrow> string list \<Rightarrow> bool" where
  "cmd_canDo c as = (length as > 0 \<and> head as = Some (cmd_name c))"

text \<open>
  The action of \<open>helpCmd\<close>: without a value it shows the top-level help; with one it looks
  the command up by name and renders its usage block, or reports that it is unknown.
\<close>

definition helpCmd_action :: "('a, 'b) Definition \<Rightarrow> string option \<Rightarrow> state \<Rightarrow> outcome" where
  "helpCmd_action cli v s =
     (case v of
        None \<Rightarrow> Returns (show_cli s)
      | Some x \<Rightarrow>
          (case find (\<lambda>c. cmd_name c = x) (cmds cli) of
             None \<Rightarrow> reportErrorAndTerminate (''Unknown command '' @ x) cli s
           | Some c \<Rightarrow> Returns (s\<lparr>out := out s @ [Render (Cmd_usage (cmd_name c))]\<rparr>)))"

fun run_cmd_action ::
  "('a, 'b) cmd_handler \<Rightarrow> 'b cmd_action \<Rightarrow> ('a, 'b) Definition \<Rightarrow> string option \<Rightarrow> state \<Rightarrow> outcome" where
  "run_cmd_action k HelpCmd_action cli v s = helpCmd_action cli v s"
| "run_cmd_action k (Custom_cmd_action b) cli v s = k b cli v s"

text \<open>What \<open>ValueCommand.doNow\<close> does once its own options have been processed.\<close>

definition positional_check ::
  "('a, 'b) cmd_handler \<Rightarrow> ('a, 'b) command \<Rightarrow> ('a, 'b) Definition \<Rightarrow> state \<Rightarrow> outcome" where
  "positional_check k c cli s =
     (if length (args s) = 0
      then (if optional (showValue c) then run_cmd_action k (cmd_action c) cli None s
            else reportErrorAndTerminate (sv_name (showValue c) @ '' requires a value'') cli s)
      else if length (args s) = 1 then run_cmd_action k (cmd_action c) cli (head (args s)) s
      else reportErrorAndTerminate (''Too many arguments '' @ join_comma (args s)) cli s)"

definition cmd_doNow ::
  "('a, 'b) opt_handler \<Rightarrow> ('a, 'b) cmd_handler \<Rightarrow> ('a, 'b) command \<Rightarrow> ('a, 'b) Definition \<Rightarrow>
     state \<Rightarrow> outcome option" where
  "cmd_doNow h k c cli s =
     (case processOptions h cli (cmd_options c) s of
        None \<Rightarrow> None
      | Some r \<Rightarrow>
          (case r of
             Returns s' \<Rightarrow> Some (positional_check k c cli s')
           | Exits w e \<Rightarrow> Some (Exits w e)
           | Throws w e \<Rightarrow> Some (Throws w e)))"

definition helpCmd :: "('a, 'b) command" where
  "helpCmd = ValueCommand ''help'' ''Provides detail help on a specific command'' []
     \<lparr>sv_name = ''CmdName'', optional = True,
      sv_help = ''The name of the command that more help detail is to be shown.''\<rparr>
     HelpCmd_action"

text \<open>What \<open>process\<close> does once the global options have been processed.\<close>

definition dispatch ::
  "('a, 'b) opt_handler \<Rightarrow> ('a, 'b) cmd_handler \<Rightarrow> ('a, 'b) Definition \<Rightarrow> state \<Rightarrow> outcome option" where
  "dispatch h k cli s =
     (if length (args s) = 0
      then Some (reportErrorAndTerminate ''Invalid arguments - no command specified'' cli s)
      else (case find (\<lambda>c. cmd_canDo c (args s)) (cmds cli) of
              None \<Rightarrow> Some (reportErrorAndTerminate (''Invalid command '' @ interpolate (head (args s))) cli s)
            | Some c \<Rightarrow> cmd_doNow h k c cli (s\<lparr>args := drop 1 (args s)\<rparr>)))"

text \<open>\<open>process(cli)\<close>, with \<open>Deno.args\<close> as a parameter.\<close>

definition initial :: "string list \<Rightarrow> state" where
  "initial argv = \<lparr>args = argv, vals = Map.empty, out = [], deferred = []\<rparr>"

definition process ::
  "('a, 'b) opt_handler \<Rightarrow> ('a, 'b) cmd_handler \<Rightarrow> ('a, 'b) Definition \<Rightarrow> string list \<Rightarrow>
     outcome option" where
  "process h k cli argv =
     (case processOptions h cli (options cli) (initial argv) of
        None \<Rightarrow> None
      | Some r \<Rightarrow>
          (case r of
             Returns s \<Rightarrow> dispatch h k cli s
           | Exits w e \<Rightarrow> Some (Exits w e)
           | Throws w e \<Rightarrow> Some (Throws w e)))"

text \<open>
  After \<open>process\<close> has returned the event loop runs what was left behind an \<open>await\<close>:
  the first pending \<open>Deno.exit\<close> ends the process.
\<close>

fun event_loop :: "outcome \<Rightarrow> outcome" where
  "event_loop (Returns s) = (case deferred s of [] \<Rightarrow> Returns s | c # _ \<Rightarrow> Exits (out s) c)"
| "event_loop (Exits w c) = Exits w c"
| "event_loop (Throws w e) = Throws w e"

definition run ::
  "('a, 'b) opt_handler \<Rightarrow> ('a, 'b) cmd_handler \<Rightarrow> ('a, 'b) Definition \<Rightarrow> string list \<Rightarrow>
     outcome option" where
  "run h k cli argv = map_option event_loop (process h k cli argv)"

section \<open>Sample inputs\<close>

text \<open>
  A hosting program whose option callbacks and command actions do nothing, one whose
  command action logs the value it was given, one whose
  option callback puts the token \<open>-a\<close> back in front of the token array, and a small
  definition with the built-in help flag and help command.
\<close>

abbreviation idle_opt :: "(unit, unit) opt_handler" where
  "idle_opt \<equiv> \<lambda>a cli s. Returns s"

abbreviation idle_cmd :: "(unit, unit) cmd_handler" where
  "idle_cmd \<equiv> \<lambda>b cli v s. Returns s"


abbreviation pushing_opt :: "(unit, unit) opt_handler" where
  "pushing_opt \<equiv> \<lambda>a cli s. Returns (s\<lparr>args := ''-a'' # args s\<rparr>)"

abbreviation tool :: "(unit, unit) Definition" where
  "tool \<equiv> \<lparr>name = ''tool'', helpText = ''A tool'',
            options = [helpFlag, FlagOption [''-x''] ''A flag'', ValueOption [''--foo''] ''A value''],
            cmds = [helpCmd,
                    ValueCommand ''build'' ''Builds a file'' [FlagOption [''-v''] ''Verbose'']
                      \<lparr>sv_name = ''File'', optional = False, sv_help = ''The file to build''\<rparr>
                      (Custom_cmd_action ())]\<rparr>"

abbreviation tokens :: "string list \<Rightarrow> state" where
  "tokens as \<equiv> \<lparr>args = as, vals = Map.empty, out = [], deferred = []\<rparr>"

section \<open>Strings\<close>

lemma startsWith_iff: "startsWith s p \<longleftrightarrow> (\<exists>r. s = p @ r)"
  by (induction s p rule: startsWith.induct) auto

lemma dropWhile_index_eq:
  "index \<le> length s \<Longrightarrow>
   dropWhile_index s (\<lambda>c. c = [x]) index =
     index + length (takeWhile (\<lambda>c. c = x) (drop index s))"
proof (induction s "\<lambda>c::string. c = [x]" index rule: dropWhile_index.induct)
  case (1 s index)
  show ?case
  proof (cases "index < length s")
    case True
    then obtain y ys where d: "drop index s = y # ys"
      by (metis Cons_nth_drop_Suc)
    then have d': "drop (Suc index) s = ys"
      by (metis drop_Suc tl_drop list.sel(3))
    show ?thesis
      using 1 True d d' by (subst dropWhile_index.simps) auto
  next
    case False
    then show ?thesis using 1 by (subst dropWhile_index.simps) simp
  qed
qed

text \<open>The index loop of the module computes the library's \<open>dropWhile\<close> on characters.\<close>

lemma dropWhile_str_eq: "dropWhile_str s (\<lambda>c. c = [x]) = dropWhile (\<lambda>c. c = x) s"
proof -
  have "drop (length (takeWhile (\<lambda>c. c = x) s)) s = dropWhile (\<lambda>c. c = x) s"
    by (simp add: dropWhile_eq_drop)
  moreover have "takeWhile (\<lambda>c. c = x) s = [] \<Longrightarrow> dropWhile (\<lambda>c. c = x) s = s"
    by (cases s) (auto split: if_splits)
  ultimately show ?thesis
    by (auto simp: dropWhile_str_def dropWhile_index_eq Let_def)
qed

lemma canonical_key_eq: "canonical_key ts = dropWhile (\<lambda>c. c = CHR ''-'') (hd ts)"
  by (simp add: canonical_key_def dropWhile_str_eq)

lemma indexOf_first: "c \<notin> set pre \<Longrightarrow> indexOf (pre @ c # post) c = int (length pre)"
  by (induction pre) (auto simp: Let_def)

lemma substring_after_first:
  "c \<notin> set pre \<Longrightarrow> substring_from (pre @ c # post) (indexOf (pre @ c # post) c + 1) = post"
  by (simp add: indexOf_first substring_from_def nat_add_distrib)

section \<open>Options\<close>

lemma ValueOption_canDo_split:
  assumes "canDo (ValueOption ts hlp) (tok # rest) = Inr True"
  shows "ts \<noteq> [] \<and> (\<exists>pre v. tok = pre @ CHR ''='' # v \<and> CHR ''='' \<notin> set pre)"
proof -
  from assms obtain t where t: "t \<in> set ts" "startsWith tok (t @ ''='')"
    by (auto simp: list_ex_iff)
  then have ne: "ts \<noteq> []" and "\<exists>r. tok = (t @ ''='') @ r"
    by (auto simp: startsWith_iff)
  then have "CHR ''='' \<in> set tok" by auto
  from split_list_first[OF this] ne show ?thesis by blast
qed

lemma FlagOption_canDo_nonempty:
  "canDo (FlagOption ts hlp) (tok # rest) = Inr True \<Longrightarrow> ts \<noteq> []"
  by auto

lemma find_canDo_Cons:
  "find_canDo opts (a # as) = Inr (find (\<lambda>opt. canDo opt (a # as) = Inr True) opts)"
proof (induction opts)
  case Nil
  show ?case by simp
next
  case (Cons opt opts)
  obtain b where "canDo opt (a # as) = Inr b"
    by (cases opt) simp_all
  with Cons show ?case by simp
qed

section \<open>The loop\<close>

lemma processOptions_done: "\<not> loop_cond s \<Longrightarrow> processOptions h cli opts s = Some (Returns s)"
  by (subst processOptions.simps) simp

lemma processOptions_break:
  "loop_cond s \<Longrightarrow> loop_body h cli opts s = Break t \<Longrightarrow>
   processOptions h cli opts s = Some (Returns t)"
  by (subst processOptions.simps) simp

lemma processOptions_again:
  "loop_cond s \<Longrightarrow> loop_body h cli opts s = Continue (Returns t) \<Longrightarrow>
   processOptions h cli opts s = processOptions h cli opts t"
  by (subst processOptions.simps) simp

lemma processOptions_exits:
  "loop_cond s \<Longrightarrow> loop_body h cli opts s = Continue (Exits w c) \<Longrightarrow>
   processOptions h cli opts s = Some (Exits w c)"
  by (subst processOptions.simps) simp

lemma processOptions_throws:
  "loop_cond s \<Longrightarrow> loop_body h cli opts s = Continue (Throws w e) \<Longrightarrow>
   processOptions h cli opts s = Some (Throws w e)"
  by (subst processOptions.simps) simp

lemma loop_body_Break_iff:
  "loop_body h cli opts s = Break t \<longleftrightarrow> (\<exists>rest. args s = ''--'' # rest \<and> t = s\<lparr>args := rest\<rparr>)"
  by (auto simp: loop_body_def head_def split: list.splits sum.splits option.splits)

lemma processOptions_Returns_shape:
  assumes "processOptions h cli opts s = Some r"
  shows "\<forall>s'. r = Returns s' \<longrightarrow> args s' = []
       \<or> (\<exists>a rest. args s' = a # rest \<and> \<not> startsWith a ''-'')
       \<or> (\<exists>t. loop_reaches h cli opts s t \<and> args t = ''--'' # args s' \<and> s' = t\<lparr>args := args s'\<rparr>)"
proof (rule processOptions.raw_induct
    [where P = "\<lambda>h cli opts s r. \<forall>s'. r = Returns s' \<longrightarrow> args s' = []
       \<or> (\<exists>a rest. args s' = a # rest \<and> \<not> startsWith a ''-'')
       \<or> (\<exists>t. loop_reaches h cli opts s t \<and> args t = ''--'' # args s' \<and> s' = t\<lparr>args := args s'\<rparr>)",
     OF _ assms])
  fix f :: "('a, 'b) opt_handler \<Rightarrow> ('a, 'b) Definition \<Rightarrow> 'a cli_option list \<Rightarrow> state \<Rightarrow> outcome option"
  fix h :: "('a, 'b) opt_handler" and cli :: "('a, 'b) Definition"
  fix opts :: "'a cli_option list" and s :: state and r :: outcome
  assume IH: "\<And>h cli opts s r. f h cli opts s = Some r \<Longrightarrow>
       \<forall>s'. r = Returns s' \<longrightarrow> args s' = []
       \<or> (\<exists>a rest. args s' = a # rest \<and> \<not> startsWith a ''-'')
       \<or> (\<exists>t. loop_reaches h cli opts s t \<and> args t = ''--'' # args s' \<and> s' = t\<lparr>args := args s'\<rparr>)"
  assume eq: "(if loop_cond s
      then (case loop_body h cli opts s of
              Break s' \<Rightarrow> Some (Returns s')
            | Continue r \<Rightarrow>
                (case r of
                   Returns s' \<Rightarrow> f h cli opts s'
                 | Exits w c \<Rightarrow> Some (Exits w c)
                 | Throws w e \<Rightarrow> Some (Throws w e)))
      else Some (Returns s)) = Some r"
  show "\<forall>s'. r = Returns s' \<longrightarrow> args s' = []
       \<or> (\<exists>a rest. args s' = a # rest \<and> \<not> startsWith a ''-'')
       \<or> (\<exists>t. loop_reaches h cli opts s t \<and> args t = ''--'' # args s' \<and> s' = t\<lparr>args := args s'\<rparr>)"
  proof (cases "loop_cond s")
    case False
    with eq have "r = Returns s" by simp
    with False show ?thesis by (auto simp: loop_cond_def split: list.splits)
  next
    case True
    show ?thesis
    proof (cases "loop_body h cli opts s")
      case (Break t)
      with True eq have r: "r = Returns t" by simp
      from Break obtain rest where "args s = ''--'' # rest" "t = s\<lparr>args := rest\<rparr>"
        by (auto simp: loop_body_Break_iff)
      then have "loop_reaches h cli opts s s \<and> args s = ''--'' # args t \<and> t = s\<lparr>args := args t\<rparr>"
        by (simp add: loop_reaches.here)
      with r show ?thesis by blast
    next
      case (Continue q)
      show ?thesis
      proof (cases q)
        case (Returns t)
        with True Continue eq have "f h cli opts t = Some r" by simp
        from IH[OF this]
        have shape: "\<forall>s'. r = Returns s' \<longrightarrow> args s' = []
            \<or> (\<exists>a rest. args s' = a # rest \<and> \<not> startsWith a ''-'')
            \<or> (\<exists>u. loop_reaches h cli opts t u \<and> args u = ''--'' # args s' \<and> s' = u\<lparr>args := args s'\<rparr>)" .
        have step: "\<And>u. loop_reaches h cli opts t u \<Longrightarrow> loop_reaches h cli opts s u"
          using True Continue Returns by (auto intro: loop_reaches.later)
        from shape step show ?thesis by blast
      next
        case (Exits w c)
        with True Continue eq show ?thesis by auto
      next
        case (Throws w e)
        with True Continue eq show ?thesis by auto
      qed
    qed
  qed
qed


section \<open>Commands and the dispatcher\<close>

lemma find_first: "\<forall>p \<in> set pre. \<not> P p \<Longrightarrow> P x \<Longrightarrow> find P (pre @ x # post) = Some x"
  by (induction pre) auto

lemma processOptions_invalid_option:
  assumes "args s = tok # rest" and "startsWith tok ''-''" and "tok \<noteq> ''--''"
    and "\<forall>opt \<in> set opts. canDo opt (args s) \<noteq> Inr True"
  shows "processOptions h cli opts s =
           Some (Exits (out s @ [Line Stdout (''Error: Invalid option '' @ tok)]) (- 1))"
proof -
  have "find (\<lambda>opt. canDo opt (tok # rest) = Inr True) opts = None"
    using assms(1,4) by (simp add: find_None_iff)
  with assms(1,3)
  have body: "loop_body h cli opts s =
      Continue (Exits (out s @ [Line Stdout (''Error: Invalid option '' @ tok)]) (- 1))"
    by (simp add: loop_body_def head_def find_canDo_Cons interpolate_def
        reportErrorAndTerminate_def)
  have cond: "loop_cond s"
    using assms(1,2) by (simp add: loop_cond_def)
  from processOptions_exits[OF cond body] show ?thesis .
qed


lemma positional_check_missing:
  "args s = [] \<Longrightarrow> \<not> optional (showValue c) \<Longrightarrow>
   positional_check k c cli s =
     Exits (out s @ [Line Stdout (''Error: '' @ sv_name (showValue c) @ '' requires a value'')]) (- 1)"
  by (simp add: positional_check_def reportErrorAndTerminate_def)


lemma positional_check_many:
  assumes "length (args s) > 1"
  shows "positional_check k c cli s =
     Exits (out s @ [Line Stdout (''Error: Too many arguments '' @ join_comma (args s))]) (- 1)"
proof -
  from assms have "length (args s) \<noteq> 0" and "length (args s) \<noteq> 1" by auto
  then show ?thesis
    unfolding positional_check_def reportErrorAndTerminate_def by simp
qed


lemma cmd_doNow_Exits:
  "processOptions h cli (cmd_options c) s = Some (Exits w e) \<Longrightarrow>
   cmd_doNow h k c cli s = Some (Exits w e)"
  by (simp add: cmd_doNow_def)

lemma dispatch_no_command:
  "args s = [] \<Longrightarrow>
   dispatch h k cli s =
     Some (Exits (out s @ [Line Stdout ''Error: Invalid arguments - no command specified'']) (- 1))"
  by (simp add: dispatch_def reportErrorAndTerminate_def)

lemma dispatch_unknown_command:
  assumes "args s = tok # rest" and "\<forall>c \<in> set (cmds cli). cmd_name c \<noteq> tok"
  shows "dispatch h k cli s =
     Some (Exits (out s @ [Line Stdout (''Error: Invalid command '' @ tok)]) (- 1))"
proof -
  have "find (\<lambda>c. cmd_canDo c (args s)) (cmds cli) = None"
    using assms by (auto simp: find_None_iff cmd_canDo_def head_def)
  with assms(1) show ?thesis
    by (simp add: dispatch_def reportErrorAndTerminate_def interpolate_def head_def)
qed

lemma dispatch_command:
  assumes "args s = tok # rest" and "cmds cli = pre @ c # post"
    and "\<forall>p \<in> set pre. cmd_name p \<noteq> tok" and "cmd_name c = tok"
  shows "dispatch h k cli s = cmd_doNow h k c cli (s\<lparr>args := rest\<rparr>)"
proof -
  have "find (\<lambda>c. cmd_canDo c (tok # rest)) (pre @ c # post) = Some c"
    using assms(3,4) by (intro find_first) (auto simp: cmd_canDo_def head_def)
  with assms(1,2) show ?thesis
    by (simp add: dispatch_def)
qed

lemma process_Returns:
  "processOptions h cli (options cli) (initial argv) = Some (Returns s) \<Longrightarrow>
   process h k cli argv = dispatch h k cli s"
  by (simp add: process_def)

lemma process_Exits:
  "processOptions h cli (options cli) (initial argv) = Some (Exits w e) \<Longrightarrow>
   process h k cli argv = Some (Exits w e)"
  by (simp add: process_def)

lemma helpCmd_action_unknown:
  assumes "\<forall>c \<in> set (cmds cli). cmd_name c \<noteq> x"
  shows "helpCmd_action cli (Some x) s =
           Exits (out s @ [Line Stdout (''Error: Unknown command '' @ x)]) (- 1)"
proof -
  have "find (\<lambda>c. cmd_name c = x) (cmds cli) = None"
    using assms by (simp add: find_None_iff)
  then show ?thesis
    by (simp add: helpCmd_action_def reportErrorAndTerminate_def)
qed


section \<open>Termination of the loop\<close>

lemma doNow_consumes:
  assumes bound: "\<forall>a t t'. h a cli t = Returns t' \<longrightarrow> length (args t') \<le> length (args t)"
    and ne: "args s = tok # rest"
    and ret: "doNow h opt cli s = Returns t"
  shows "length (args t) < length (args s)"
proof (cases opt)
  case (ValueOption ts hlp)
  with ne ret show ?thesis by (auto split: if_splits)
next
  case (FlagOption ts hlp)
  with ne ret show ?thesis by (auto split: if_splits)
next
  case (DoOption ts hlp act)
  show ?thesis
  proof (cases act)
    case Help_action
    with DoOption ne ret show ?thesis by (auto simp: show_cli_def)
  next
    case (Custom_action a)
    with DoOption ne ret have "h a cli (s\<lparr>args := rest\<rparr>) = Returns t" by simp
    with bound have "length (args t) \<le> length (args (s\<lparr>args := rest\<rparr>))" by blast
    with ne show ?thesis by simp
  qed
qed

lemma loop_body_consumes:
  assumes bound: "\<forall>a t t'. h a cli t = Returns t' \<longrightarrow> length (args t') \<le> length (args t)"
    and cond: "loop_cond s"
    and body: "loop_body h cli opts s = Continue (Returns t)"
  shows "length (args t) < length (args s)"
proof -
  from cond obtain tok rest where ne: "args s = tok # rest"
    by (auto simp: loop_cond_def split: list.splits)
  from body ne obtain opt where "doNow h opt cli s = Returns t"
    by (auto simp: loop_body_def head_def find_canDo_Cons reportErrorAndTerminate_def
        split: if_splits option.splits)
  from doNow_consumes[OF bound ne this] show ?thesis .
qed

lemma processOptions_total:
  assumes bound: "\<forall>a t t'. h a cli t = Returns t' \<longrightarrow> length (args t') \<le> length (args t)"
  shows "\<exists>r. processOptions h cli opts s = Some r"
proof (induction "length (args s)" arbitrary: s rule: less_induct)
  case less
  show ?case
  proof (cases "loop_cond s")
    case False
    then show ?thesis by (simp add: processOptions_done)
  next
    case True
    show ?thesis
    proof (cases "loop_body h cli opts s")
      case (Break t)
      with True show ?thesis by (simp add: processOptions_break)
    next
      case (Continue q)
      show ?thesis
      proof (cases q)
        case (Returns t)
        with Continue have body: "loop_body h cli opts s = Continue (Returns t)" by simp
        from loop_body_consumes[OF bound True body] less
        have "\<exists>r. processOptions h cli opts t = Some r" by blast
        with processOptions_again[OF True body] show ?thesis by simp
      next
        case (Exits w c)
        with Continue True show ?thesis by (simp add: processOptions_exits)
      next
        case (Throws w e)
        with Continue True show ?thesis by (simp add: processOptions_throws)
      qed
    qed
  qed
qed

text \<open>A callback that puts the consumed token back keeps the loop running for ever.\<close>

lemma processOptions_pushing_diverges:
  "processOptions pushing_opt cli [DoOption [''-a''] ''Again'' (Custom_action ())] (tokens [''-a''])
     = None"
proof (rule ccontr)
  assume "processOptions pushing_opt cli [DoOption [''-a''] ''Again'' (Custom_action ())]
            (tokens [''-a'']) \<noteq> None"
  then obtain r where run:
    "processOptions pushing_opt cli [DoOption [''-a''] ''Again'' (Custom_action ())]
       (tokens [''-a'']) = Some r"
    by blast
  have "pushing_opt = pushing_opt
          \<and> [DoOption [''-a''] ''Again'' (Custom_action ())] = [DoOption [''-a''] ''Again'' (Custom_action ())]
          \<and> tokens [''-a''] = tokens [''-a''] \<longrightarrow> False"
  proof (rule processOptions.raw_induct
      [where P = "\<lambda>h cli opts s r. h = pushing_opt
          \<and> opts = [DoOption [''-a''] ''Again'' (Custom_action ())]
          \<and> s = tokens [''-a''] \<longrightarrow> False", OF _ run])
    fix f :: "(unit, unit) opt_handler \<Rightarrow> (unit, unit) Definition \<Rightarrow> unit cli_option list
                \<Rightarrow> state \<Rightarrow> outcome option"
    fix h :: "(unit, unit) opt_handler" and cli :: "(unit, unit) Definition"
    fix opts :: "unit cli_option list" and s :: state and r :: outcome
    assume IH: "\<And>h cli opts s r. f h cli opts s = Some r \<Longrightarrow>
        h = pushing_opt \<and> opts = [DoOption [''-a''] ''Again'' (Custom_action ())]
          \<and> s = tokens [''-a''] \<longrightarrow> False"
    assume eq: "(if loop_cond s
      then (case loop_body h cli opts s of
              Break s' \<Rightarrow> Some (Returns s')
            | Continue r \<Rightarrow>
                (case r of
                   Returns s' \<Rightarrow> f h cli opts s'
                 | Exits w c \<Rightarrow> Some (Exits w c)
                 | Throws w e \<Rightarrow> Some (Throws w e)))
      else Some (Returns s)) = Some r"
    show "h = pushing_opt \<and> opts = [DoOption [''-a''] ''Again'' (Custom_action ())]
          \<and> s = tokens [''-a''] \<longrightarrow> False"
    proof
      assume a: "h = pushing_opt \<and> opts = [DoOption [''-a''] ''Again'' (Custom_action ())]
          \<and> s = tokens [''-a'']"
      then have "loop_cond s" and "loop_body h cli opts s = Continue (Returns s)"
        by (simp_all add: loop_cond_def loop_body_def head_def)
      with eq have "f h cli opts s = Some r" by simp
      from IH[OF this] a show False by blast
    qed
  qed
  then show False by simp
qed

section \<open>Claims\<close>

text \<open>
  C1. Whenever the option-list processor returns normally, the remaining token sequence is
  empty, or its head token does not start with \<open>-\<close>, or the loop was left at a state whose
  head token was the terminator \<open>--\<close> and the result is that state with exactly this one
  token removed: the tokens after it, the store and the output are as they were.
\<close>

theorem processOptions_normal_return:
  assumes "processOptions h cli opts s = Some (Returns s')"
  shows "args s' = []
       \<or> (\<exists>a rest. args s' = a # rest \<and> \<not> startsWith a ''-'')
       \<or> (\<exists>t. loop_reaches h cli opts s t \<and> args t = ''--'' # args s' \<and> s' = t\<lparr>args := args s'\<rparr>)"
  using processOptions_Returns_shape[OF assms] by blast

theorem processOptions_normal_return_witness:
  "processOptions idle_opt tool [FlagOption [''-x''] ''A flag''] (tokens [''-x'', ''--'', ''-y'', ''z''])
     = Some (Returns \<lparr>args = [''-y'', ''z''], vals = [''x'' \<mapsto> VBool True], out = [], deferred = []\<rparr>)
   \<and> (args \<lparr>args = [''-y'', ''z''], vals = [''x'' \<mapsto> VBool True], out = [], deferred = []\<rparr> = []
       \<or> (\<exists>a rest. args \<lparr>args = [''-y'', ''z''], vals = [''x'' \<mapsto> VBool True], out = [], deferred = []\<rparr> = a # rest
             \<and> \<not> startsWith a ''-'')
       \<or> (\<exists>t. loop_reaches idle_opt tool [FlagOption [''-x''] ''A flag''] (tokens [''-x'', ''--'', ''-y'', ''z'']) t
             \<and> args t = ''--'' # args \<lparr>args = [''-y'', ''z''], vals = [''x'' \<mapsto> VBool True], out = [], deferred = []\<rparr>
             \<and> \<lparr>args = [''-y'', ''z''], vals = [''x'' \<mapsto> VBool True], out = [], deferred = []\<rparr>
                 = t\<lparr>args := args \<lparr>args = [''-y'', ''z''], vals = [''x'' \<mapsto> VBool True], out = [], deferred = []\<rparr>\<rparr>))"
proof -
  have run: "processOptions idle_opt tool [FlagOption [''-x''] ''A flag''] (tokens [''-x'', ''--'', ''-y'', ''z''])
     = Some (Returns \<lparr>args = [''-y'', ''z''], vals = [''x'' \<mapsto> VBool True], out = [], deferred = []\<rparr>)"
    apply (subst processOptions.simps)
    apply (simp add: loop_cond_def loop_body_def head_def canonical_key_eq)
    apply (subst processOptions.simps)
    apply (simp add: loop_cond_def loop_body_def head_def)
    done
  show ?thesis
    by (rule conjI[OF run processOptions_normal_return[OF run]])
qed

text \<open>
  C2. A \<open>ValueOption\<close> applied to a token sequence whose head it matches consumes exactly
  the head token, splits it at its first \<open>=\<close> and stores what follows that \<open>=\<close> under the
  first declared tag stripped of its leading \<open>-\<close> characters. For the tag \<open>--foo\<close>, the
  head \<open>--foo=bar\<close> stores \<open>bar\<close> under \<open>foo\<close> and the head \<open>--foo=\<close> stores the empty string.
\<close>

theorem ValueOption_doNow_stores_after_first_equals:
  "(\<forall>s tok rest ts hlp. args s = tok # rest \<and> canDo (ValueOption ts hlp) (args s) = Inr True \<longrightarrow>
      (\<exists>pre v. tok = pre @ ''='' @ v \<and> CHR ''='' \<notin> set pre \<and>
         doNow h (ValueOption ts hlp) cli s =
           Returns (s\<lparr>vals := (vals s)(dropWhile (\<lambda>c. c = CHR ''-'') (hd ts) \<mapsto> VString v),
                      args := rest\<rparr>)))
   \<and> (\<forall>s rest hlp. args s = ''--foo=bar'' # rest \<longrightarrow>
        canDo (ValueOption [''--foo''] hlp) (args s) = Inr True \<and>
        doNow h (ValueOption [''--foo''] hlp) cli s =
          Returns (s\<lparr>vals := (vals s)(''foo'' \<mapsto> VString ''bar''), args := rest\<rparr>))
   \<and> (\<forall>s rest hlp. args s = ''--foo='' # rest \<longrightarrow>
        canDo (ValueOption [''--foo''] hlp) (args s) = Inr True \<and>
        doNow h (ValueOption [''--foo''] hlp) cli s =
          Returns (s\<lparr>vals := (vals s)(''foo'' \<mapsto> VString ''''), args := rest\<rparr>))"
proof (intro conjI allI impI)
  fix s :: state and tok rest ts hlp
  assume a: "args s = tok # rest \<and> canDo (ValueOption ts hlp) (args s) = Inr True"
  with ValueOption_canDo_split[of ts hlp tok rest]
  obtain pre v where *: "ts \<noteq> []" "tok = pre @ CHR ''='' # v" "CHR ''='' \<notin> set pre"
    by auto
  then have "doNow h (ValueOption ts hlp) cli s =
             Returns (s\<lparr>vals := (vals s)(dropWhile (\<lambda>c. c = CHR ''-'') (hd ts) \<mapsto> VString v),
                        args := rest\<rparr>)"
    using a by (simp add: canonical_key_eq substring_after_first)
  with * show "\<exists>pre v. tok = pre @ ''='' @ v \<and> CHR ''='' \<notin> set pre \<and>
         doNow h (ValueOption ts hlp) cli s =
           Returns (s\<lparr>vals := (vals s)(dropWhile (\<lambda>c. c = CHR ''-'') (hd ts) \<mapsto> VString v),
                      args := rest\<rparr>)"
    by auto
next
  fix s :: state and rest hlp
  assume "args s = ''--foo=bar'' # rest"
  then show "canDo (ValueOption [''--foo''] hlp) (args s) = Inr True" by simp
next
  fix s :: state and rest hlp
  assume "args s = ''--foo=bar'' # rest"
  then show "doNow h (ValueOption [''--foo''] hlp) cli s =
          Returns (s\<lparr>vals := (vals s)(''foo'' \<mapsto> VString ''bar''), args := rest\<rparr>)"
    by (simp add: canonical_key_eq substring_from_def Let_def)
next
  fix s :: state and rest hlp
  assume "args s = ''--foo='' # rest"
  then show "canDo (ValueOption [''--foo''] hlp) (args s) = Inr True" by simp
next
  fix s :: state and rest hlp
  assume "args s = ''--foo='' # rest"
  then show "doNow h (ValueOption [''--foo''] hlp) cli s =
          Returns (s\<lparr>vals := (vals s)(''foo'' \<mapsto> VString ''''), args := rest\<rparr>)"
    by (simp add: canonical_key_eq substring_from_def Let_def)
qed

theorem ValueOption_doNow_stores_after_first_equals_witness:
  "args (tokens [''--foo=bar'', ''build'']) = ''--foo=bar'' # [''build'']
   \<and> canDo (ValueOption [''--foo''] ''A value'' :: unit cli_option)
         (args (tokens [''--foo=bar'', ''build''])) = Inr True
   \<and> (\<exists>pre v. ''--foo=bar'' = pre @ ''='' @ v \<and> CHR ''='' \<notin> set pre \<and>
         doNow idle_opt (ValueOption [''--foo''] ''A value'') tool (tokens [''--foo=bar'', ''build'']) =
           Returns ((tokens [''--foo=bar'', ''build''])
             \<lparr>vals := (vals (tokens [''--foo=bar'', ''build'']))
                        (dropWhile (\<lambda>c. c = CHR ''-'') (hd [''--foo'']) \<mapsto> VString v),
              args := [''build'']\<rparr>))
   \<and> doNow idle_opt (ValueOption [''--foo''] ''A value'') tool (tokens [''--foo=bar'', ''build'']) =
       Returns ((tokens [''--foo=bar'', ''build''])
         \<lparr>vals := (vals (tokens [''--foo=bar'', ''build'']))(''foo'' \<mapsto> VString ''bar''),
          args := [''build'']\<rparr>)"
proof -
  let ?s = "tokens [''--foo=bar'', ''build'']"
  have a: "args ?s = ''--foo=bar'' # [''build'']" by simp
  have c: "canDo (ValueOption [''--foo''] ''A value'' :: unit cli_option) (args ?s) = Inr True"
    by simp
  note inst = ValueOption_doNow_stores_after_first_equals[of idle_opt tool]
  from inst have general: "\<forall>s tok rest ts hlp.
      args s = tok # rest \<and> canDo (ValueOption ts hlp) (args s) = Inr True \<longrightarrow>
      (\<exists>pre v. tok = pre @ ''='' @ v \<and> CHR ''='' \<notin> set pre \<and>
         doNow idle_opt (ValueOption ts hlp) tool s =
           Returns (s\<lparr>vals := (vals s)(dropWhile (\<lambda>c. c = CHR ''-'') (hd ts) \<mapsto> VString v),
                      args := rest\<rparr>))"
    by (rule conjunct1)
  from inst have particular: "\<forall>s rest hlp. args s = ''--foo=bar'' # rest \<longrightarrow>
        canDo (ValueOption [''--foo''] hlp) (args s) = Inr True \<and>
        doNow idle_opt (ValueOption [''--foo''] hlp) tool s =
          Returns (s\<lparr>vals := (vals s)(''foo'' \<mapsto> VString ''bar''), args := rest\<rparr>)"
    by (rule conjunct1[OF conjunct2])
  from general[rule_format, of ?s "''--foo=bar''" "[''build'']" "[''--foo'']" "''A value''", OF conjI[OF a c]]
    particular[rule_format, of ?s "[''build'']" "''A value''", OF a] a c
  show ?thesis by blast
qed

text \<open>
  C8. A \<open>FlagOption\<close> matches exactly when the head token equals one of its declared tags.
  Declared with the tag \<open>-x\<close>, it matches the token \<open>-x\<close> and sets the store entry \<open>x\<close>
  to \<open>true\<close>, and it matches neither \<open>-xx\<close> nor \<open>-x=y\<close>.
\<close>

theorem FlagOption_matches_exact_tag:
  "(\<forall>ts hlp tok rest. canDo (FlagOption ts hlp) (tok # rest) = Inr (tok \<in> set ts))
   \<and> (\<forall>s rest hlp. args s = ''-x'' # rest \<longrightarrow>
         canDo (FlagOption [''-x''] hlp) (args s) = Inr True \<and>
         doNow h (FlagOption [''-x''] hlp) cli s =
           Returns (s\<lparr>args := rest, vals := (vals s)(''x'' \<mapsto> VBool True)\<rparr>))
   \<and> (\<forall>rest hlp. canDo (FlagOption [''-x''] hlp) (''-xx'' # rest) = Inr False
                 \<and> canDo (FlagOption [''-x''] hlp) (''-x=y'' # rest) = Inr False)"
  by (auto simp: list_ex_iff canonical_key_eq)

theorem FlagOption_matches_exact_tag_witness:
  "args (tokens [''-x'', ''build'']) = ''-x'' # [''build'']
   \<and> canDo (FlagOption [''-x''] ''A flag'' :: unit cli_option)
         (args (tokens [''-x'', ''build''])) = Inr True
   \<and> doNow idle_opt (FlagOption [''-x''] ''A flag'') tool (tokens [''-x'', ''build'']) =
        Returns ((tokens [''-x'', ''build''])
          \<lparr>args := [''build''], vals := (vals (tokens [''-x'', ''build'']))(''x'' \<mapsto> VBool True)\<rparr>)"
proof -
  let ?s = "tokens [''-x'', ''build'']"
  have a: "args ?s = ''-x'' # [''build'']" by simp
  from FlagOption_matches_exact_tag[of idle_opt tool]
  have "\<forall>s rest hlp. args s = ''-x'' # rest \<longrightarrow>
         canDo (FlagOption [''-x''] hlp) (args s) = Inr True \<and>
         doNow idle_opt (FlagOption [''-x''] hlp) tool s =
           Returns (s\<lparr>args := rest, vals := (vals s)(''x'' \<mapsto> VBool True)\<rparr>)"
    by (rule conjunct1[OF conjunct2])
  from this[rule_format, of ?s "[''build'']" "''A flag''", OF a] a show ?thesis by blast
qed

text \<open>
  C10. A \<open>FlagOption\<close> or \<open>ValueOption\<close> applied to a non-empty token sequence whose head
  it matches removes exactly the head token, leaving the other tokens in place and in
  order, and writes no store entry other than the one under the canonical key of its first
  tag; the output and the pending exits are unchanged as well.
\<close>

theorem Flag_and_Value_doNow_frame:
  assumes "args s = tok # rest"
    and "opt = ValueOption ts hlp \<or> opt = FlagOption ts hlp"
    and "canDo opt (args s) = Inr True"
  shows "\<exists>s'. doNow h opt cli s = Returns s' \<and> args s' = rest
           \<and> (\<forall>k. k \<noteq> dropWhile (\<lambda>c. c = CHR ''-'') (hd ts) \<longrightarrow> vals s' k = vals s k)
           \<and> out s' = out s \<and> deferred s' = deferred s"
proof -
  from assms have "ts \<noteq> []"
    using ValueOption_canDo_split[of ts hlp tok rest] FlagOption_canDo_nonempty[of ts hlp tok rest]
    by auto
  with assms(1,2) show ?thesis
    by (auto simp: canonical_key_eq)
qed

theorem Flag_and_Value_doNow_frame_witness:
  "args \<lparr>args = [''--foo=bar'', ''-x'', ''build''], vals = [''x'' \<mapsto> VString ''old''],
         out = [Render Cli_help], deferred = [0]\<rparr> = ''--foo=bar'' # [''-x'', ''build'']
   \<and> ((ValueOption [''--foo''] ''A value'' :: unit cli_option) = ValueOption [''--foo''] ''A value''
        \<or> (ValueOption [''--foo''] ''A value'' :: unit cli_option) = FlagOption [''--foo''] ''A value'')
   \<and> canDo (ValueOption [''--foo''] ''A value'' :: unit cli_option)
        (args \<lparr>args = [''--foo=bar'', ''-x'', ''build''], vals = [''x'' \<mapsto> VString ''old''],
               out = [Render Cli_help], deferred = [0]\<rparr>) = Inr True
   \<and> (\<exists>s'. doNow idle_opt (ValueOption [''--foo''] ''A value'') tool
               \<lparr>args = [''--foo=bar'', ''-x'', ''build''], vals = [''x'' \<mapsto> VString ''old''],
                out = [Render Cli_help], deferred = [0]\<rparr> = Returns s'
          \<and> args s' = [''-x'', ''build'']
          \<and> (\<forall>k. k \<noteq> dropWhile (\<lambda>c. c = CHR ''-'') (hd [''--foo'']) \<longrightarrow>
                 vals s' k = vals \<lparr>args = [''--foo=bar'', ''-x'', ''build''],
                                   vals = [''x'' \<mapsto> VString ''old''],
                                   out = [Render Cli_help], deferred = [0]\<rparr> k)
          \<and> out s' = out \<lparr>args = [''--foo=bar'', ''-x'', ''build''], vals = [''x'' \<mapsto> VString ''old''],
                           out = [Render Cli_help], deferred = [0]\<rparr>
          \<and> deferred s' = deferred \<lparr>args = [''--foo=bar'', ''-x'', ''build''],
                                     vals = [''x'' \<mapsto> VString ''old''],
                                     out = [Render Cli_help], deferred = [0]\<rparr>)"
proof -
  let ?s = "\<lparr>args = [''--foo=bar'', ''-x'', ''build''], vals = [''x'' \<mapsto> VString ''old''],
            out = [Render Cli_help], deferred = [0]\<rparr>"
  let ?opt = "ValueOption [''--foo''] ''A value'' :: unit cli_option"
  have a: "args ?s = ''--foo=bar'' # [''-x'', ''build'']" by simp
  have b: "?opt = ValueOption [''--foo''] ''A value'' \<or> ?opt = FlagOption [''--foo''] ''A value''"
    by simp
  have c: "canDo ?opt (args ?s) = Inr True" by simp
  show ?thesis
    by (intro conjI a b c Flag_and_Value_doNow_frame[OF a b c])
qed

text \<open>
  C4. When several declared options could match the head token, the option-list processor
  applies the first one in declaration order whose \<open>canDo\<close> answers \<open>true\<close>, whatever comes
  later in the list, then goes on with the loop from the state that option left.
\<close>

theorem first_matching_option_is_applied:
  assumes "args s = tok # rest" and "startsWith tok ''-''" and "tok \<noteq> ''--''"
    and "opts = pre @ opt # post"
    and "\<forall>p \<in> set pre. canDo p (args s) \<noteq> Inr True"
    and "canDo opt (args s) = Inr True"
  shows "loop_body h cli opts s = Continue (doNow h opt cli s)
       \<and> processOptions h cli opts s =
           (case doNow h opt cli s of
              Returns t \<Rightarrow> processOptions h cli opts t
            | Exits w c \<Rightarrow> Some (Exits w c)
            | Throws w e \<Rightarrow> Some (Throws w e))"
proof -
  have "find (\<lambda>opt. canDo opt (tok # rest) = Inr True) (pre @ opt # post) = Some opt"
    using assms(1,5,6) by (intro find_first) auto
  with assms(1,3,4) have body: "loop_body h cli opts s = Continue (doNow h opt cli s)"
    by (simp add: loop_body_def head_def find_canDo_Cons)
  have cond: "loop_cond s"
    using assms(1,2) by (simp add: loop_cond_def)
  have "processOptions h cli opts s =
           (case doNow h opt cli s of
              Returns t \<Rightarrow> processOptions h cli opts t
            | Exits w c \<Rightarrow> Some (Exits w c)
            | Throws w e \<Rightarrow> Some (Throws w e))"
  proof (cases "doNow h opt cli s")
    case (Returns t)
    with body have "loop_body h cli opts s = Continue (Returns t)" by simp
    from processOptions_again[OF cond this] Returns show ?thesis by simp
  next
    case (Exits w c)
    with body have "loop_body h cli opts s = Continue (Exits w c)" by simp
    from processOptions_exits[OF cond this] Exits show ?thesis by simp
  next
    case (Throws w e)
    with body have "loop_body h cli opts s = Continue (Throws w e)" by simp
    from processOptions_throws[OF cond this] Throws show ?thesis by simp
  qed
  with body show ?thesis by (rule conjI)
qed

theorem first_matching_option_is_applied_witness:
  "args (tokens [''--a=b=c'']) = ''--a=b=c'' # []
   \<and> startsWith ''--a=b=c'' ''-'' \<and> ''--a=b=c'' \<noteq> ''--''
   \<and> ([FlagOption [''-x''] ''A flag'', ValueOption [''--a''] ''short'', ValueOption [''--a=b''] ''long'']
         :: unit cli_option list)
       = [FlagOption [''-x''] ''A flag''] @ ValueOption [''--a''] ''short'' # [ValueOption [''--a=b''] ''long'']
   \<and> canDo (FlagOption [''-x''] ''A flag'' :: unit cli_option) (args (tokens [''--a=b=c''])) = Inr False
   \<and> canDo (ValueOption [''--a''] ''short'' :: unit cli_option) (args (tokens [''--a=b=c''])) = Inr True
   \<and> canDo (ValueOption [''--a=b''] ''long'' :: unit cli_option) (args (tokens [''--a=b=c''])) = Inr True
   \<and> loop_body idle_opt tool
        [FlagOption [''-x''] ''A flag'', ValueOption [''--a''] ''short'', ValueOption [''--a=b''] ''long'']
        (tokens [''--a=b=c''])
       = Continue (doNow idle_opt (ValueOption [''--a''] ''short'') tool (tokens [''--a=b=c'']))
   \<and> doNow idle_opt (ValueOption [''--a''] ''short'') tool (tokens [''--a=b=c''])
       = Returns \<lparr>args = [], vals = [''a'' \<mapsto> VString ''b=c''], out = [], deferred = []\<rparr>"
proof -
  let ?s = "tokens [''--a=b=c'']"
  let ?opts = "[FlagOption [''-x''] ''A flag'', ValueOption [''--a''] ''short'',
                ValueOption [''--a=b''] ''long''] :: unit cli_option list"
  have a: "args ?s = ''--a=b=c'' # []" by simp
  have b: "startsWith ''--a=b=c'' ''-''" by simp
  have c: "''--a=b=c'' \<noteq> ''--''" by simp
  have d: "?opts = [FlagOption [''-x''] ''A flag''] @ ValueOption [''--a''] ''short''
             # [ValueOption [''--a=b''] ''long'']" by simp
  have e: "\<forall>p \<in> set [FlagOption [''-x''] ''A flag'' :: unit cli_option].
             canDo p (args ?s) \<noteq> Inr True" by simp
  have e': "canDo (FlagOption [''-x''] ''A flag'' :: unit cli_option) (args ?s) = Inr False" by simp
  have f: "canDo (ValueOption [''--a''] ''short'' :: unit cli_option) (args ?s) = Inr True" by simp
  have g: "canDo (ValueOption [''--a=b''] ''long'' :: unit cli_option) (args ?s) = Inr True" by simp
  have r: "doNow idle_opt (ValueOption [''--a''] ''short'') tool ?s
       = Returns \<lparr>args = [], vals = [''a'' \<mapsto> VString ''b=c''], out = [], deferred = []\<rparr>"
    by (simp add: canonical_key_eq substring_from_def Let_def)
  from first_matching_option_is_applied[OF a b c d e f, of idle_opt tool]
  have l: "loop_body idle_opt tool ?opts ?s
          = Continue (doNow idle_opt (ValueOption [''--a''] ''short'') tool ?s)"
    by (rule conjunct1)
  show ?thesis
    by (intro conjI a b c d e' f g r l)
qed



text \<open>
  C5. After the global options the dispatcher reports
  \<open>Invalid arguments - no command specified\<close> and ends the process with failure when no
  token is left; otherwise it takes the first command in declaration order whose \<open>canDo\<close>
  holds, which is the case exactly when the token sequence is non-empty and its head
  equals the command's name; without such a command it reports \<open>Invalid command <token>\<close>
  and ends the process with failure, with one it removes the command-name token and runs
  that command's \<open>doNow\<close>.
\<close>

theorem process_dispatches_first_command:
  assumes "processOptions h cli (options cli) (initial argv) = Some (Returns s)"
  shows "(args s = [] \<longrightarrow>
            process h k cli argv =
              Some (Exits (out s @ [Line Stdout ''Error: Invalid arguments - no command specified'']) (- 1)))
       \<and> (\<forall>tok rest. args s = tok # rest \<and> (\<forall>c \<in> set (cmds cli). cmd_name c \<noteq> tok) \<longrightarrow>
            process h k cli argv =
              Some (Exits (out s @ [Line Stdout (''Error: Invalid command '' @ tok)]) (- 1)))
       \<and> (\<forall>tok rest pre c post.
            args s = tok # rest \<and> cmds cli = pre @ c # post
              \<and> (\<forall>p \<in> set pre. \<not> cmd_canDo p (args s)) \<and> cmd_canDo c (args s) \<longrightarrow>
            process h k cli argv = cmd_doNow h k c cli (s\<lparr>args := rest\<rparr>))
       \<and> (\<forall>(c :: ('a, 'b) command) as. cmd_canDo c as \<longleftrightarrow> as \<noteq> [] \<and> hd as = cmd_name c)"
proof (intro conjI allI impI)
  assume "args s = []"
  then show "process h k cli argv =
      Some (Exits (out s @ [Line Stdout ''Error: Invalid arguments - no command specified'']) (- 1))"
    by (simp add: process_Returns[OF assms] dispatch_no_command)
next
  fix tok rest
  assume "args s = tok # rest \<and> (\<forall>c \<in> set (cmds cli). cmd_name c \<noteq> tok)"
  then show "process h k cli argv =
      Some (Exits (out s @ [Line Stdout (''Error: Invalid command '' @ tok)]) (- 1))"
    by (simp add: process_Returns[OF assms] dispatch_unknown_command[of s tok rest])
next
  fix tok rest pre c post
  assume a: "args s = tok # rest \<and> cmds cli = pre @ c # post
              \<and> (\<forall>p \<in> set pre. \<not> cmd_canDo p (args s)) \<and> cmd_canDo c (args s)"
  then have "\<forall>p \<in> set pre. cmd_name p \<noteq> tok" and "cmd_name c = tok"
    by (auto simp: cmd_canDo_def head_def)
  with a show "process h k cli argv = cmd_doNow h k c cli (s\<lparr>args := rest\<rparr>)"
    by (simp add: process_Returns[OF assms] dispatch_command[of s tok rest cli pre c post])
next
  fix c :: "('a, 'b) command" and as
  show "cmd_canDo c as \<longleftrightarrow> as \<noteq> [] \<and> hd as = cmd_name c"
    by (cases as) (auto simp: cmd_canDo_def head_def)
qed

theorem process_dispatches_first_command_witness:
  "processOptions idle_opt tool (options tool) (initial [''-x'', ''build'', ''f.txt''])
     = Some (Returns \<lparr>args = [''build'', ''f.txt''], vals = [''x'' \<mapsto> VBool True], out = [], deferred = []\<rparr>)
   \<and> args \<lparr>args = [''build'', ''f.txt''], vals = [''x'' \<mapsto> VBool True], out = [], deferred = []\<rparr>
         = ''build'' # [''f.txt'']
   \<and> cmds tool = [helpCmd] @
         ValueCommand ''build'' ''Builds a file'' [FlagOption [''-v''] ''Verbose'']
           \<lparr>sv_name = ''File'', optional = False, sv_help = ''The file to build''\<rparr>
           (Custom_cmd_action ()) # []
   \<and> cmd_canDo (helpCmd :: (unit, unit) command)
         (args \<lparr>args = [''build'', ''f.txt''], vals = [''x'' \<mapsto> VBool True], out = [], deferred = []\<rparr>)
         = False
   \<and> cmd_canDo
         (ValueCommand ''build'' ''Builds a file'' [FlagOption [''-v''] ''Verbose'']
           \<lparr>sv_name = ''File'', optional = False, sv_help = ''The file to build''\<rparr>
           (Custom_cmd_action ()) :: (unit, unit) command)
         (args \<lparr>args = [''build'', ''f.txt''], vals = [''x'' \<mapsto> VBool True], out = [], deferred = []\<rparr>)
   \<and> process idle_opt idle_cmd tool [''-x'', ''build'', ''f.txt'']
       = cmd_doNow idle_opt idle_cmd
           (ValueCommand ''build'' ''Builds a file'' [FlagOption [''-v''] ''Verbose'']
             \<lparr>sv_name = ''File'', optional = False, sv_help = ''The file to build''\<rparr>
             (Custom_cmd_action ()))
           tool
           (\<lparr>args = [''build'', ''f.txt''], vals = [''x'' \<mapsto> VBool True], out = [], deferred = []\<rparr>
              \<lparr>args := [''f.txt'']\<rparr>)"
proof -
  let ?c = "ValueCommand ''build'' ''Builds a file'' [FlagOption [''-v''] ''Verbose'']
           \<lparr>sv_name = ''File'', optional = False, sv_help = ''The file to build''\<rparr>
           (Custom_cmd_action ()) :: (unit, unit) command"
  let ?s = "\<lparr>args = [''build'', ''f.txt''], vals = [''x'' \<mapsto> VBool True], out = [], deferred = []\<rparr>"
  have run: "processOptions idle_opt tool (options tool) (initial [''-x'', ''build'', ''f.txt''])
     = Some (Returns ?s)"
    apply (subst processOptions.simps)
    apply (simp add: loop_cond_def loop_body_def head_def canonical_key_eq helpFlag_def initial_def)
    apply (subst processOptions.simps)
    apply (simp add: loop_cond_def)
    done
  have a: "args ?s = ''build'' # [''f.txt'']" by simp
  have b: "cmds tool = [helpCmd] @ ?c # []" by simp
  have c: "cmd_canDo (helpCmd :: (unit, unit) command) (args ?s) = False"
    by (simp add: cmd_canDo_def helpCmd_def head_def)
  have c': "\<forall>p \<in> set [helpCmd :: (unit, unit) command]. \<not> cmd_canDo p (args ?s)"
    using c by simp
  have d: "cmd_canDo ?c (args ?s)"
    by (simp add: cmd_canDo_def head_def)
  from process_dispatches_first_command[OF run, of idle_cmd]
  have "\<forall>tok rest pre c post.
            args ?s = tok # rest \<and> cmds tool = pre @ c # post
              \<and> (\<forall>p \<in> set pre. \<not> cmd_canDo p (args ?s)) \<and> cmd_canDo c (args ?s) \<longrightarrow>
            process idle_opt idle_cmd tool [''-x'', ''build'', ''f.txt'']
              = cmd_doNow idle_opt idle_cmd c tool (?s\<lparr>args := rest\<rparr>)"
    by (rule conjunct1[OF conjunct2[OF conjunct2]])
  from this[rule_format, of "''build''" "[''f.txt'']" "[helpCmd]" ?c "[]", OF conjI[OF a conjI[OF b conjI[OF c' d]]]]
  have e: "process idle_opt idle_cmd tool [''-x'', ''build'', ''f.txt'']
              = cmd_doNow idle_opt idle_cmd ?c tool (?s\<lparr>args := [''f.txt'']\<rparr>)" .
  show ?thesis
    by (intro conjI run a b c d e)
qed

text \<open>
  C6. Every fatal error of the engine (no command, unknown command, unknown option, missing
  required value, too many arguments, unknown help target) adds exactly one line
  \<open>Error: <message>\<close> on standard output to what was written before and ends the process
  with the non-zero status \<open>-1\<close>; an exit inside the option processing of \<open>process\<close> or of
  a command is the outcome of the whole call, nothing runs after it.
\<close>

theorem fatal_error_is_one_stdout_line_then_exit:
  "reportErrorAndTerminate msg cli s = Exits (out s @ [Line Stdout (''Error: '' @ msg)]) (- 1)
   \<and> (- 1 :: int) \<noteq> 0
   \<and> (\<forall>tok rest. args s = tok # rest \<and> startsWith tok ''-'' \<and> tok \<noteq> ''--''
          \<and> (\<forall>opt \<in> set opts. canDo opt (args s) \<noteq> Inr True) \<longrightarrow>
        processOptions h cli opts s =
          Some (Exits (out s @ [Line Stdout (''Error: Invalid option '' @ tok)]) (- 1)))
   \<and> (processOptions h cli (options cli) (initial argv) = Some (Returns s) \<and> args s = [] \<longrightarrow>
        process h k cli argv =
          Some (Exits (out s @ [Line Stdout ''Error: Invalid arguments - no command specified'']) (- 1)))
   \<and> (\<forall>tok rest. processOptions h cli (options cli) (initial argv) = Some (Returns s)
          \<and> args s = tok # rest \<and> (\<forall>c \<in> set (cmds cli). cmd_name c \<noteq> tok) \<longrightarrow>
        process h k cli argv =
          Some (Exits (out s @ [Line Stdout (''Error: Invalid command '' @ tok)]) (- 1)))
   \<and> (args s = [] \<and> \<not> optional (showValue c) \<longrightarrow>
        positional_check k c cli s =
          Exits (out s @ [Line Stdout (''Error: '' @ sv_name (showValue c) @ '' requires a value'')]) (- 1))
   \<and> (length (args s) > 1 \<longrightarrow>
        positional_check k c cli s =
          Exits (out s @ [Line Stdout (''Error: Too many arguments '' @ join_comma (args s))]) (- 1))
   \<and> (\<forall>x. (\<forall>c \<in> set (cmds cli). cmd_name c \<noteq> x) \<longrightarrow>
        run_cmd_action k HelpCmd_action cli (Some x) s =
          Exits (out s @ [Line Stdout (''Error: Unknown command '' @ x)]) (- 1))
   \<and> (\<forall>w e. processOptions h cli (options cli) (initial argv) = Some (Exits w e) \<longrightarrow>
        process h k cli argv = Some (Exits w e))
   \<and> (\<forall>w e. processOptions h cli (cmd_options c) s = Some (Exits w e) \<longrightarrow>
        cmd_doNow h k c cli s = Some (Exits w e))"
proof (intro conjI allI impI)
  show "reportErrorAndTerminate msg cli s = Exits (out s @ [Line Stdout (''Error: '' @ msg)]) (- 1)"
    by (simp add: reportErrorAndTerminate_def)
next
  show "(- 1 :: int) \<noteq> 0" by simp
next
  fix tok rest
  assume "args s = tok # rest \<and> startsWith tok ''-'' \<and> tok \<noteq> ''--''
          \<and> (\<forall>opt \<in> set opts. canDo opt (args s) \<noteq> Inr True)"
  then show "processOptions h cli opts s =
          Some (Exits (out s @ [Line Stdout (''Error: Invalid option '' @ tok)]) (- 1))"
    using processOptions_invalid_option[of s tok rest opts h cli] by blast
next
  assume "processOptions h cli (options cli) (initial argv) = Some (Returns s) \<and> args s = []"
  then show "process h k cli argv =
          Some (Exits (out s @ [Line Stdout ''Error: Invalid arguments - no command specified'']) (- 1))"
    by (simp add: process_Returns dispatch_no_command)
next
  fix tok rest
  assume "processOptions h cli (options cli) (initial argv) = Some (Returns s)
          \<and> args s = tok # rest \<and> (\<forall>c \<in> set (cmds cli). cmd_name c \<noteq> tok)"
  then show "process h k cli argv =
          Some (Exits (out s @ [Line Stdout (''Error: Invalid command '' @ tok)]) (- 1))"
    by (simp add: process_Returns dispatch_unknown_command[of s tok rest])
next
  assume "args s = [] \<and> \<not> optional (showValue c)"
  then show "positional_check k c cli s =
          Exits (out s @ [Line Stdout (''Error: '' @ sv_name (showValue c) @ '' requires a value'')]) (- 1)"
    by (simp add: positional_check_missing)
next
  assume "length (args s) > 1"
  then show "positional_check k c cli s =
          Exits (out s @ [Line Stdout (''Error: Too many arguments '' @ join_comma (args s))]) (- 1)"
    by (rule positional_check_many)
next
  fix x
  assume "\<forall>c \<in> set (cmds cli). cmd_name c \<noteq> x"
  then show "run_cmd_action k HelpCmd_action cli (Some x) s =
          Exits (out s @ [Line Stdout (''Error: Unknown command '' @ x)]) (- 1)"
    by (simp add: helpCmd_action_unknown)
next
  fix w e
  assume "processOptions h cli (options cli) (initial argv) = Some (Exits w e)"
  then show "process h k cli argv = Some (Exits w e)"
    by (rule process_Exits)
next
  fix w e
  assume "processOptions h cli (cmd_options c) s = Some (Exits w e)"
  then show "cmd_doNow h k c cli s = Some (Exits w e)"
    by (rule cmd_doNow_Exits)
qed

theorem fatal_error_is_one_stdout_line_then_exit_witness:
  "args \<lparr>args = [''-q'', ''build''], vals = Map.empty, out = [Render Cli_help], deferred = [0]\<rparr>
     = ''-q'' # [''build'']
   \<and> startsWith ''-q'' ''-'' \<and> ''-q'' \<noteq> ''--''
   \<and> canDo (FlagOption [''-x''] ''A flag'' :: unit cli_option)
        (args \<lparr>args = [''-q'', ''build''], vals = Map.empty, out = [Render Cli_help], deferred = [0]\<rparr>)
        = Inr False
   \<and> processOptions idle_opt tool [FlagOption [''-x''] ''A flag'']
        \<lparr>args = [''-q'', ''build''], vals = Map.empty, out = [Render Cli_help], deferred = [0]\<rparr>
       = Some (Exits [Render Cli_help, Line Stdout ''Error: Invalid option -q''] (- 1))"
proof -
  let ?s = "\<lparr>args = [''-q'', ''build''], vals = Map.empty, out = [Render Cli_help], deferred = [0]\<rparr>"
  let ?opts = "[FlagOption [''-x''] ''A flag''] :: unit cli_option list"
  have a: "args ?s = ''-q'' # [''build'']" by simp
  have b: "startsWith ''-q'' ''-''" by simp
  have c: "''-q'' \<noteq> ''--''" by simp
  have d: "canDo (FlagOption [''-x''] ''A flag'' :: unit cli_option) (args ?s) = Inr False" by simp
  have d': "\<forall>opt \<in> set ?opts. canDo opt (args ?s) \<noteq> Inr True" by simp
  from fatal_error_is_one_stdout_line_then_exit[of "''''" tool ?s ?opts idle_opt]
  have "\<forall>tok rest. args ?s = tok # rest \<and> startsWith tok ''-'' \<and> tok \<noteq> ''--''
          \<and> (\<forall>opt \<in> set ?opts. canDo opt (args ?s) \<noteq> Inr True) \<longrightarrow>
        processOptions idle_opt tool ?opts ?s =
          Some (Exits (out ?s @ [Line Stdout (''Error: Invalid option '' @ tok)]) (- 1))"
    by (rule conjunct1[OF conjunct2[OF conjunct2]])
  from this[rule_format, of "''-q''" "[''build'']", OF conjI[OF a conjI[OF b conjI[OF c d']]]]
  have e: "processOptions idle_opt tool ?opts ?s
       = Some (Exits [Render Cli_help, Line Stdout ''Error: Invalid option -q''] (- 1))"
    by simp
  show ?thesis
    by (intro conjI a b c d e)
qed

text \<open>
  C7. With the built-in help flag among the global options, \<open>process\<close> on the arguments
  \<open>--help\<close> starts rendering the help document, but the callback's \<open>Deno.exit(0)\<close> waits
  behind an \<open>await\<close> that nothing awaits: the dispatcher goes on synchronously, finds no
  token left, reports \<open>Invalid arguments - no command specified\<close> and ends the process
  with status \<open>-1\<close>. The process does not end with status 0.
\<close>

theorem process_help_flag_exits_with_failure:
  "process h k (cli\<lparr>options := [helpFlag]\<rparr>) [''--help'']
     = Some (Exits [Render Cli_help,
                    Line Stdout ''Error: Invalid arguments - no command specified''] (- 1))
   \<and> run h k (cli\<lparr>options := [helpFlag]\<rparr>) [''--help'']
     = Some (Exits [Render Cli_help,
                    Line Stdout ''Error: Invalid arguments - no command specified''] (- 1))"
proof -
  let ?s = "\<lparr>args = [], vals = Map.empty, out = [Render Cli_help], deferred = [0]\<rparr>"
  have run: "processOptions h (cli\<lparr>options := [helpFlag]\<rparr>) (options (cli\<lparr>options := [helpFlag]\<rparr>))
               (initial [''--help'']) = Some (Returns ?s)"
    apply (subst processOptions.simps)
    apply (simp add: loop_cond_def loop_body_def head_def helpFlag_def initial_def show_cli_def)
    apply (subst processOptions.simps)
    apply (simp add: loop_cond_def)
    done
  have "process h k (cli\<lparr>options := [helpFlag]\<rparr>) [''--help'']
     = Some (Exits [Render Cli_help,
                    Line Stdout ''Error: Invalid arguments - no command specified''] (- 1))"
    by (simp add: process_Returns[OF run] dispatch_no_command)
  then show ?thesis
    by (simp add: run_def)
qed

text \<open>
  C9, as stated: every iteration that neither leaves the loop nor ends the process
  shortens the token sequence, so the loop always terminates. A \<open>DoOption\<close> hands the
  token array to its callback, and a callback that puts a token back makes an iteration
  that does not shorten the sequence; the loop then never ends.
\<close>

theorem processOptions_decrease_counterexample:
  "loop_cond (tokens [''-a''])
   \<and> loop_body pushing_opt tool [DoOption [''-a''] ''Again'' (Custom_action ())] (tokens [''-a''])
       = Continue (Returns (tokens [''-a'']))
   \<and> \<not> length (args (tokens [''-a''])) < length (args (tokens [''-a'']))
   \<and> processOptions pushing_opt tool [DoOption [''-a''] ''Again'' (Custom_action ())] (tokens [''-a''])
       = None"
proof (intro conjI)
  show "loop_cond (tokens [''-a''])"
    by (simp add: loop_cond_def)
  show "loop_body pushing_opt tool [DoOption [''-a''] ''Again'' (Custom_action ())] (tokens [''-a''])
       = Continue (Returns (tokens [''-a'']))"
    by (simp add: loop_body_def head_def)
  show "\<not> length (args (tokens [''-a''])) < length (args (tokens [''-a'']))"
    by simp
  show "processOptions pushing_opt tool [DoOption [''-a''] ''Again'' (Custom_action ())] (tokens [''-a''])
       = None"
    by (rule processOptions_pushing_diverges)
qed

text \<open>
  C9, amended. When no callback of the hosting program returns with a token sequence
  longer than the one it received (\<open>ValueOption\<close>, \<open>FlagOption\<close> and the built-in help flag
  never lengthen it), every iteration that neither leaves the loop nor ends the process
  strictly shortens the token sequence, and the loop terminates on every option list and
  every state.
\<close>

theorem processOptions_terminates:
  assumes "\<forall>a t t'. h a cli t = Returns t' \<longrightarrow> length (args t') \<le> length (args t)"
  shows "(\<forall>s t. loop_cond s \<and> loop_body h cli opts s = Continue (Returns t) \<longrightarrow>
            length (args t) < length (args s))
       \<and> (\<forall>s. \<exists>r. processOptions h cli opts s = Some r)"
proof (intro conjI allI impI)
  fix s t
  assume "loop_cond s \<and> loop_body h cli opts s = Continue (Returns t)"
  then show "length (args t) < length (args s)"
    using loop_body_consumes[of h cli s opts t] assms by blast
next
  fix s
  show "\<exists>r. processOptions h cli opts s = Some r"
    using processOptions_total[of h cli opts s] assms by blast
qed

theorem processOptions_terminates_witness:
  "loop_cond (tokens [''-x'', ''--foo=bar'', ''build''])
   \<and> loop_body idle_opt tool (options tool) (tokens [''-x'', ''--foo=bar'', ''build''])
       = Continue (Returns \<lparr>args = [''--foo=bar'', ''build''], vals = [''x'' \<mapsto> VBool True],
                            out = [], deferred = []\<rparr>)
   \<and> length (args \<lparr>args = [''--foo=bar'', ''build''], vals = [''x'' \<mapsto> VBool True],
                    out = [], deferred = []\<rparr>)
       < length (args (tokens [''-x'', ''--foo=bar'', ''build'']))
   \<and> (\<exists>r. processOptions idle_opt tool (options tool) (tokens [''-x'', ''--foo=bar'', ''build''])
             = Some r)"
proof -
  let ?s = "tokens [''-x'', ''--foo=bar'', ''build'']"
  let ?t = "\<lparr>args = [''--foo=bar'', ''build''], vals = [''x'' \<mapsto> VBool True],
             out = [], deferred = []\<rparr>"
  have bound: "\<forall>a t t'. idle_opt a tool t = Returns t' \<longrightarrow> length (args t') \<le> length (args t)"
    by simp
  have a: "loop_cond ?s" by (simp add: loop_cond_def)
  have b: "loop_body idle_opt tool (options tool) ?s = Continue (Returns ?t)"
    by (simp add: loop_body_def head_def helpFlag_def canonical_key_eq)
  note inst = processOptions_terminates[of idle_opt tool "options tool", OF bound]
  from inst a b have c: "length (args ?t) < length (args ?s)" by blast
  from inst have d: "\<exists>r. processOptions idle_opt tool (options tool) ?s = Some r" by blast
  show ?thesis
    by (intro conjI a b c d)
qed

end
